theory Spec2Isabelle
  imports Complex_Main "HOL-Library.Product_Lexorder" "HOL-Library.Sublist" "HOL-Library.Multiset"
begin

section \<open>Calendar dates and the date helpers the components import\<close>

text \<open>
  The components keep every date as a string \<^verbatim>\<open>yyyy-MM-dd\<close> and hand it to
  \<^verbatim>\<open>parseISO\<close>, which yields a JavaScript \<^verbatim>\<open>Date\<close> at local midnight of that day;
  \<^verbatim>\<open>format(d, 'yyyy-MM-dd')\<close> prints the local calendar day of a \<^verbatim>\<open>Date\<close> again.
  A value of type \<open>date\<close> stands for a well-formed date string (year, month 1 to 12,
  day of the month), and an \<open>instant\<close> for a
  \<^verbatim>\<open>Date\<close> object: its local calendar day and the milliseconds elapsed since local
  midnight. Time values are compared through these local fields (no change of the
  UTC offset between the instants compared).
\<close>

record date =
  year :: int
  month :: int
  day :: int

type_synonym instant = "date \<times> nat"

definition ymd :: "date \<Rightarrow> int \<times> int \<times> int" where
  "ymd d = (year d, month d, day d)"

definition getTime :: "instant \<Rightarrow> (int \<times> int \<times> int) \<times> nat" where
  "getTime t = (ymd (fst t), snd t)"

definition parseISO :: "date \<Rightarrow> instant" where
  "parseISO d = (d, 0)"

definition format :: "instant \<Rightarrow> date" where
  "format t = fst t"

definition isAfter :: "instant \<Rightarrow> instant \<Rightarrow> bool" where
  "isAfter a b = (getTime a > getTime b)"

definition isLeapYear :: "int \<Rightarrow> bool" where
  "isLeapYear y = (y mod 400 = 0 \<or> (y mod 4 = 0 \<and> y mod 100 \<noteq> 0))"

definition getDaysInMonth :: "int \<Rightarrow> int \<Rightarrow> int" where
  "getDaysInMonth y m =
     (if m = 2 then (if isLeapYear y then 29 else 28)
      else if m = 4 \<or> m = 6 \<or> m = 9 \<or> m = 11 then 30
      else 31)"

text \<open>
  \<^verbatim>\<open>toInteger\<close> of date-fns truncates towards zero. \<^verbatim>\<open>addMonths(date, amount)\<close>
  returns the date itself when the truncated amount is 0; otherwise it moves to the month
  \<open>amount\<close> months later and keeps the day of the month, clamped to the last day of the
  target month. The time of day is kept. (Releases of date-fns without \<^verbatim>\<open>toInteger\<close>
  pass the amount to \<^verbatim>\<open>Date.setMonth\<close>, which truncates it in the same way.)
\<close>

definition toInteger :: "real \<Rightarrow> int" where
  "toInteger x = (if x < 0 then \<lceil>x\<rceil> else \<lfloor>x\<rfloor>)"

definition addMonths :: "instant \<Rightarrow> real \<Rightarrow> instant" where
  "addMonths t dirtyAmount =
     (let amount = toInteger dirtyAmount; d = fst t in
      if amount = 0 then t
      else
        let dayOfMonth = day d;
            m0 = month d - 1 + amount;
            y' = year d + m0 div 12;
            m' = m0 mod 12 + 1;
            daysInMonth = getDaysInMonth y' m'
        in if dayOfMonth \<ge> daysInMonth
           then (\<lparr>year = y', month = m', day = daysInMonth\<rparr>, snd t)
           else (\<lparr>year = y', month = m', day = dayOfMonth\<rparr>, snd t))"

section \<open>Transactions and recurring templates\<close>

text \<open>
  The fields are those of the objects the components build. Identifiers and amounts are
  JavaScript numbers. Identifiers are only compared; amounts are added and subtracted, in
  double precision, so their type \<open>'n\<close> is left open and nothing is assumed of its
  arithmetic. \<^verbatim>\<open>type\<close>, \<^verbatim>\<open>category\<close>, \<^verbatim>\<open>frequency\<close> are strings. A date field
  that may be \<^verbatim>\<open>null\<close> or the empty string (both falsy) is an \<open>option\<close>.
\<close>

record 'n transaction =
  tx_id :: real
  tx_type :: string
  tx_description :: string
  tx_amount :: 'n
  tx_category :: string
  tx_date :: date
  isRecurring :: bool
  recurringId :: "real option"

record 'n template =
  rt_id :: real
  rt_type :: string
  rt_description :: string
  rt_amount :: 'n
  rt_category :: string
  frequency :: string
  startDate :: date
  endDate :: "date option"
  isActive :: bool
  lastProcessed :: "date option"
  nextDue :: "date option"
  createdAt :: string

section \<open>The scheduler pass of RecurringTransactions.js\<close>

text \<open>
  \<^verbatim>\<open>recurring.frequency === 'monthly' ? 1 : recurring.frequency === 'weekly' ? 0.25 :
  recurring.frequency === 'quarterly' ? 3 : 12\<close>
\<close>

definition monthsOf :: "string \<Rightarrow> real" where
  "monthsOf f =
     (if f = ''monthly'' then 1
      else if f = ''weekly'' then 0.25
      else if f = ''quarterly'' then 3
      else 12)"

text \<open>\<^verbatim>\<open>recurring.nextDue ? parseISO(recurring.nextDue) : parseISO(recurring.startDate)\<close>\<close>

definition dueOf :: "'n template \<Rightarrow> instant" where
  "dueOf recurring =
     (case nextDue recurring of Some d \<Rightarrow> parseISO d | None \<Rightarrow> parseISO (startDate recurring))"

definition isDue :: "instant \<Rightarrow> 'n template \<Rightarrow> bool" where
  "isDue today recurring =
     (isAfter today (dueOf recurring) \<or> format today = format (dueOf recurring))"

text \<open>
  The transaction object built for a template. \<open>newId\<close> is the value of
  \<^verbatim>\<open>Date.now() + Math.random()\<close> drawn for it, \<open>label\<close> is \<^verbatim>\<open>(Auto)\<close> or
  \<^verbatim>\<open>(Manual)\<close>. \<^verbatim>\<open>parseFloat\<close> of an amount that is already a number returns it.
\<close>

definition newTransaction :: "string \<Rightarrow> real \<Rightarrow> instant \<Rightarrow> 'n template \<Rightarrow> 'n transaction" where
  "newTransaction label newId today recurring =
     \<lparr>tx_id = newId,
      tx_type = rt_type recurring,
      tx_description = rt_description recurring @ '' '' @ label,
      tx_amount = rt_amount recurring,
      tx_category = rt_category recurring,
      tx_date = format today,
      isRecurring = True,
      recurringId = Some (rt_id recurring)\<rparr>"

text \<open>
  The body of \<^verbatim>\<open>updatedTransactions.forEach((recurring, index) => ...)\<close>. The callback
  \<open>onAddTransaction\<close> is the prop of the component: it acts on the state \<open>'s\<close> of the
  parent and returns nothing the loop looks at. Each iteration reads and writes only its
  own index of the copied array, so the loop is a recursion over the list that rebuilds
  it; \<open>index\<close> counts the position and selects the identifier drawn for an emission.
  The result is the updated array, the flag \<open>hasUpdates\<close> and the parent's state.
\<close>

fun forEachRecurring ::
  "('n transaction \<Rightarrow> 's \<Rightarrow> 's) \<Rightarrow> instant \<Rightarrow> (nat \<Rightarrow> real) \<Rightarrow> nat \<Rightarrow> 'n template list \<Rightarrow> 's
     \<Rightarrow> 'n template list \<times> bool \<times> 's" where
  "forEachRecurring onAddTransaction today ids index [] s = ([], False, s)"
| "forEachRecurring onAddTransaction today ids index (recurring # rest) s =
     (if \<not> isActive recurring then
        (case forEachRecurring onAddTransaction today ids (Suc index) rest s of
           (updated, hasUpdates, s') \<Rightarrow> (recurring # updated, hasUpdates, s'))
      else
        let nextDue0 = dueOf recurring in
        if isAfter today nextDue0 \<or> format today = format nextDue0 then
          let s1 = onAddTransaction (newTransaction ''(Auto)'' (ids index) today recurring) s;
              nextDueDate = addMonths nextDue0 (monthsOf (frequency recurring));
              recurring' = recurring\<lparr>lastProcessed := Some (format today),
                                     nextDue := Some (format nextDueDate)\<rparr>
          in (case forEachRecurring onAddTransaction today ids (Suc index) rest s1 of
                (updated, hasUpdates, s') \<Rightarrow> (recurring' # updated, True, s'))
        else
          (case forEachRecurring onAddTransaction today ids (Suc index) rest s of
             (updated, hasUpdates, s') \<Rightarrow> (recurring # updated, hasUpdates, s')))"

text \<open>
  One pass: the loop over a copy of the state, then
  \<^verbatim>\<open>if (hasUpdates) setRecurringTransactions(updatedTransactions)\<close>. The result is the
  new template collection and the parent's state.
\<close>

definition processRecurringTransactions ::
  "('n transaction \<Rightarrow> 's \<Rightarrow> 's) \<Rightarrow> instant \<Rightarrow> (nat \<Rightarrow> real) \<Rightarrow> 'n template list \<Rightarrow> 's
     \<Rightarrow> 'n template list \<times> 's" where
  "processRecurringTransactions onAddTransaction today ids recurringTransactions s =
     (case forEachRecurring onAddTransaction today ids 0 recurringTransactions s of
        (updatedTransactions, hasUpdates, s') \<Rightarrow>
          (if hasUpdates then updatedTransactions else recurringTransactions, s'))"

text \<open>
  \<^verbatim>\<open>processNow(id)\<close>: \<^verbatim>\<open>find\<close> returns the first template with the identifier, or
  nothing, and the function returns at once. Otherwise it hands a transaction to
  \<open>onAddTransaction\<close> and maps over the collection. There is no test of
  \<^verbatim>\<open>isActive\<close> and none of the due date. The calls of \<^verbatim>\<open>new Date()\<close> in the body are
  taken at one instant \<open>today\<close>.
\<close>

definition processNow ::
  "('n transaction \<Rightarrow> 's \<Rightarrow> 's) \<Rightarrow> instant \<Rightarrow> real \<Rightarrow> real \<Rightarrow> 'n template list \<Rightarrow> 's
     \<Rightarrow> 'n template list \<times> 's" where
  "processNow onAddTransaction today newId ident recurringTransactions s =
     (case find (\<lambda>t. rt_id t = ident) recurringTransactions of
        None \<Rightarrow> (recurringTransactions, s)
      | Some recurring \<Rightarrow>
          let s1 = onAddTransaction (newTransaction ''(Manual)'' newId today recurring) s;
              nextDueDate = addMonths today (monthsOf (frequency recurring))
          in (map (\<lambda>t. if rt_id t = ident
                        then t\<lparr>lastProcessed := Some (format today),
                               nextDue := Some (format nextDueDate)\<rparr>
                        else t) recurringTransactions,
              s1))"

text \<open>\<^verbatim>\<open>prev.map(t => t.id === id ? { ...t, isActive: !t.isActive } : t)\<close>\<close>

definition toggleActive :: "real \<Rightarrow> 'n template list \<Rightarrow> 'n template list" where
  "toggleActive ident prev =
     map (\<lambda>t. if rt_id t = ident then t\<lparr>isActive := \<not> isActive t\<rparr> else t) prev"

definition activeRecurring :: "'n template list \<Rightarrow> 'n template list" where
  "activeRecurring recurringTransactions = filter (\<lambda>t. isActive t) recurringTransactions"

definition inactiveRecurring :: "'n template list \<Rightarrow> 'n template list" where
  "inactiveRecurring recurringTransactions = filter (\<lambda>t. \<not> isActive t) recurringTransactions"

text \<open>
  \<^verbatim>\<open>activeRecurring.filter(t => t.nextDue).sort((a, b) => new Date(a.nextDue) -
  new Date(b.nextDue)).slice(0, 5)\<close>. \<^verbatim>\<open>Array.prototype.sort\<close> is stable and orders by
  the sign of the comparator, here ascending in the time value of \<^verbatim>\<open>nextDue\<close>, which is
  the order of the calendar days. \<^verbatim>\<open>new Date(null)\<close> is the epoch; after the filter the
  comparator never sees it.
\<close>

definition dueKey :: "'n template \<Rightarrow> int \<times> int \<times> int" where
  "dueKey t = (case nextDue t of Some d \<Rightarrow> ymd d | None \<Rightarrow> (1970, 1, 1))"

definition upcomingTransactions :: "'n template list \<Rightarrow> 'n template list" where
  "upcomingTransactions recurringTransactions =
     take 5 (sort_key dueKey
               (filter (\<lambda>t. nextDue t \<noteq> None) (activeRecurring recurringTransactions)))"

text \<open>
  The rendered component binds \<^verbatim>\<open>onClick={() => processNow(transaction.id)}\<close> in two
  places only: in \<^verbatim>\<open>upcomingTransactions.map\<close> and in \<^verbatim>\<open>activeRecurring.map\<close>. The list
  \<^verbatim>\<open>inactiveRecurring.map\<close> renders Resume, Edit and Delete. These are the identifiers
  \<^verbatim>\<open>processNow\<close> can be called with.
\<close>

definition processNowTriggers :: "'n template list \<Rightarrow> real list" where
  "processNowTriggers recurringTransactions =
     map rt_id (upcomingTransactions recurringTransactions)
       @ map rt_id (activeRecurring recurringTransactions)"

section \<open>The entry store of ExpenseTracker.js\<close>

text \<open>
  \<^verbatim>\<open>transactionAPI.createTransaction\<close> and \<^verbatim>\<open>updateTransaction\<close> send the data with
  the type in upper case. The backend is not part of the sources: it is a parameter
  that answers a request with a response, or with nothing when the promise rejects
  (which \<^verbatim>\<open>await\<close> turns into an exception).
\<close>

datatype 'a response = Response (success: bool) (data: 'a)

record 'n backend =
  post_transactions :: "'n transaction \<Rightarrow> 'n transaction response option"
  put_transactions :: "real \<Rightarrow> 'n transaction \<Rightarrow> 'n transaction response option"

definition toUpperChar :: "char \<Rightarrow> char" where
  "toUpperChar c =
     (let n = (of_char c :: nat) in if 97 \<le> n \<and> n \<le> 122 then char_of (n - 32) else c)"

definition toLowerChar :: "char \<Rightarrow> char" where
  "toLowerChar c =
     (let n = (of_char c :: nat) in if 65 \<le> n \<and> n \<le> 90 then char_of (n + 32) else c)"

text \<open>Case conversion as far as ASCII letters go; other characters are kept.\<close>

definition toUpperCase :: "string \<Rightarrow> string" where
  "toUpperCase s = map toUpperChar s"

definition toLowerCase :: "string \<Rightarrow> string" where
  "toLowerCase s = map toLowerChar s"

definition createTransaction :: "'n backend \<Rightarrow> 'n transaction \<Rightarrow> 'n transaction response option" where
  "createTransaction b transactionData =
     post_transactions b (transactionData\<lparr>tx_type := toUpperCase (tx_type transactionData)\<rparr>)"

definition updateTransaction ::
  "'n backend \<Rightarrow> real \<Rightarrow> 'n transaction \<Rightarrow> 'n transaction response option" where
  "updateTransaction b ident transactionData =
     put_transactions b ident
       (transactionData\<lparr>tx_type := toUpperCase (tx_type transactionData)\<rparr>)"

record 'n tracker =
  transactions :: "'n transaction list"
  editingTransaction :: "'n transaction option"
  showTransactionForm :: bool

text \<open>
  \<^verbatim>\<open>handleSaveTransaction\<close>. \<open>editing\<close> is the value of \<^verbatim>\<open>editingTransaction\<close> the
  closure was created with. A rejected request leaves the \<^verbatim>\<open>try\<close> block for the
  \<^verbatim>\<open>catch\<close>, which reports and changes no state; the function returns normally either
  way. The state updates run in the order of the calls. The reload of the dashboard
  summary touches no field modelled here.
\<close>

definition handleSaveTransaction ::
  "'n backend \<Rightarrow> 'n transaction option \<Rightarrow> 'n transaction \<Rightarrow> 'n tracker \<Rightarrow> 'n tracker" where
  "handleSaveTransaction b editing transactionData s =
     (case editing of
        Some e \<Rightarrow>
          (case updateTransaction b (tx_id e) transactionData of
             None \<Rightarrow> s
           | Some r \<Rightarrow>
               (if success r
                then s\<lparr>transactions := map (\<lambda>t. if tx_id t = tx_id e then data r else t)
                                           (transactions s)\<rparr>
                else s)\<lparr>showTransactionForm := False, editingTransaction := None\<rparr>)
      | None \<Rightarrow>
          (case createTransaction b transactionData of
             None \<Rightarrow> s
           | Some r \<Rightarrow>
               (if success r
                then s\<lparr>transactions := data r # transactions s\<rparr>
                else s)\<lparr>showTransactionForm := False, editingTransaction := None\<rparr>))"

section \<open>Filtering and totals\<close>

text \<open>Day of the week, 0 for Sunday, as \<^verbatim>\<open>Date.prototype.getDay\<close> gives it.\<close>

definition monthTerm :: "int \<Rightarrow> int" where
  "monthTerm m =
     (if m = 1 then 0 else if m = 2 then 3 else if m = 3 then 2 else if m = 4 then 5
      else if m = 5 then 0 else if m = 6 then 3 else if m = 7 then 5 else if m = 8 then 1
      else if m = 9 then 4 else if m = 10 then 6 else if m = 11 then 2 else 4)"

definition getDay :: "date \<Rightarrow> nat" where
  "getDay d =
     (let y = (if month d < 3 then year d - 1 else year d)
      in nat ((y + y div 4 - y div 100 + y div 400 + monthTerm (month d) + day d) mod 7))"

definition prevDay :: "date \<Rightarrow> date" where
  "prevDay d =
     (if 1 < day d then d\<lparr>day := day d - 1\<rparr>
      else if 1 < month d
        then \<lparr>year = year d, month = month d - 1, day = getDaysInMonth (year d) (month d - 1)\<rparr>
        else \<lparr>year = year d - 1, month = 12, day = 31\<rparr>)"

definition nextDay :: "date \<Rightarrow> date" where
  "nextDay d =
     (if day d < getDaysInMonth (year d) (month d) then d\<lparr>day := day d + 1\<rparr>
      else if month d < 12 then \<lparr>year = year d, month = month d + 1, day = 1\<rparr>
        else \<lparr>year = year d + 1, month = 1, day = 1\<rparr>)"

text \<open>
  The interval ends of date-fns, with the week starting on Sunday (the default):
  \<^verbatim>\<open>startOf...\<close> is the first day at 00:00:00.000, \<^verbatim>\<open>endOf...\<close> the last day at
  23:59:59.999. \<^verbatim>\<open>isWithinInterval\<close> includes both ends.
\<close>

definition startOfWeek :: "instant \<Rightarrow> instant" where
  "startOfWeek t = ((prevDay ^^ getDay (fst t)) (fst t), 0)"

definition endOfWeek :: "instant \<Rightarrow> instant" where
  "endOfWeek t = ((nextDay ^^ (6 - getDay (fst t))) (fst t), 86399999)"

definition startOfMonth :: "instant \<Rightarrow> instant" where
  "startOfMonth t = ((fst t)\<lparr>day := 1\<rparr>, 0)"

definition endOfMonth :: "instant \<Rightarrow> instant" where
  "endOfMonth t = ((fst t)\<lparr>day := getDaysInMonth (year (fst t)) (month (fst t))\<rparr>, 86399999)"

definition startOfYear :: "instant \<Rightarrow> instant" where
  "startOfYear t = (\<lparr>year = year (fst t), month = 1, day = 1\<rparr>, 0)"

definition endOfYear :: "instant \<Rightarrow> instant" where
  "endOfYear t = (\<lparr>year = year (fst t), month = 12, day = 31\<rparr>, 86399999)"

definition isWithinInterval :: "instant \<Rightarrow> instant \<times> instant \<Rightarrow> bool" where
  "isWithinInterval t interval =
     (getTime (fst interval) \<le> getTime t \<and> getTime t \<le> getTime (snd interval))"

text \<open>\<^verbatim>\<open>s.includes(sub)\<close>: \<open>sub\<close> occurs in \<open>s\<close> as a contiguous piece.\<close>

definition string_includes :: "string \<Rightarrow> string \<Rightarrow> bool" where
  "string_includes s sub = sublist sub s"

text \<open>
  \<^verbatim>\<open>filtered.sort((a, b) => new Date(b.date) - new Date(a.date))\<close>: the stable sort
  that puts the later date first and keeps entries of one date in their order. (The sort
  works in place on the array the last filter returned; its result is what is modelled.)
\<close>

definition sortByDateDesc :: "'n transaction list \<Rightarrow> 'n transaction list" where
  "sortByDateDesc filtered = rev (sort_key (\<lambda>t. ymd (tx_date t)) (rev filtered))"

text \<open>
  \<^verbatim>\<open>filteredTransactions\<close> of ExpenseTracker.js: four filters, each applied only when
  its control is set (an empty search term is falsy; \<^verbatim>\<open>'all'\<close> switches a filter off;
  an unknown date range reaches \<^verbatim>\<open>default: break\<close>), then the sort.
\<close>

definition filteredTransactions ::
  "instant \<Rightarrow> 'n transaction list \<Rightarrow> string \<Rightarrow> string \<Rightarrow> string \<Rightarrow> string \<Rightarrow> 'n transaction list" where
  "filteredTransactions now txs searchTerm filterType filterCategory dateRange =
     (let filtered = txs;
          filtered =
            (if searchTerm \<noteq> [] then
               filter (\<lambda>t. string_includes (toLowerCase (tx_description t)) (toLowerCase searchTerm)
                          \<or> string_includes (toLowerCase (tx_category t)) (toLowerCase searchTerm))
                 filtered
             else filtered);
          filtered =
            (if filterType \<noteq> ''all'' then filter (\<lambda>t. tx_type t = filterType) filtered
             else filtered);
          filtered =
            (if filterCategory \<noteq> ''all''
             then filter (\<lambda>t. tx_category t = filterCategory) filtered
             else filtered);
          filtered =
            (if dateRange \<noteq> ''all'' then
               (if dateRange = ''today'' then
                  let today = format now
                  in filter (\<lambda>t. format (parseISO (tx_date t)) = today) filtered
                else if dateRange = ''week'' then
                  let dateInterval = (startOfWeek now, endOfWeek now)
                  in filter (\<lambda>t. isWithinInterval (parseISO (tx_date t)) dateInterval) filtered
                else if dateRange = ''month'' then
                  let dateInterval = (startOfMonth now, endOfMonth now)
                  in filter (\<lambda>t. isWithinInterval (parseISO (tx_date t)) dateInterval) filtered
                else if dateRange = ''year'' then
                  let dateInterval = (startOfYear now, endOfYear now)
                  in filter (\<lambda>t. isWithinInterval (parseISO (tx_date t)) dateInterval) filtered
                else filtered)
             else filtered)
      in sortByDateDesc filtered)"

text \<open>
  \<^verbatim>\<open>filteredTotals\<close> of ExpenseTracker.js and \<^verbatim>\<open>periodTotals\<close> of Reports.js, over the
  list each of them reduces. \<^verbatim>\<open>reduce((sum, t) => sum + t.amount, 0)\<close> adds from the
  left, starting at 0. The amounts are double-precision numbers: \<open>+\<close>, \<open>-\<close>, \<open>*\<close>,
  \<open>/\<close>, \<open>>\<close> and \<open>0\<close> on the type \<open>'n\<close> are the operations of the language, of which
  no law is assumed (they are not associative); \<open>hundred\<close> is the number 100.
\<close>

record 'n totals =
  income :: 'n
  expense :: 'n
  balance :: 'n

record 'n period_totals = "'n totals" +
  savings :: 'n

definition filteredTotals :: "('n::{zero,plus,minus}) transaction list \<Rightarrow> 'n totals" where
  "filteredTotals filtered =
     (let income0 = foldl (\<lambda>sum t. sum + tx_amount t) 0
                      (filter (\<lambda>t. tx_type t = ''income'') filtered);
          expense0 = foldl (\<lambda>sum t. sum + tx_amount t) 0
                       (filter (\<lambda>t. tx_type t = ''expense'') filtered)
      in \<lparr>income = income0, expense = expense0, balance = income0 - expense0\<rparr>)"

definition periodTotals ::
  "('n::{zero,plus,minus,times,inverse,ord}) \<Rightarrow> 'n transaction list \<Rightarrow> 'n period_totals" where
  "periodTotals hundred filtered =
     (let income0 = foldl (\<lambda>sum t. sum + tx_amount t) 0
                      (filter (\<lambda>t. tx_type t = ''income'') filtered);
          expense0 = foldl (\<lambda>sum t. sum + tx_amount t) 0
                       (filter (\<lambda>t. tx_type t = ''expense'') filtered)
      in \<lparr>income = income0, expense = expense0, balance = income0 - expense0,
          savings = (if income0 > 0 then (income0 - expense0) / income0 * hundred else 0)\<rparr>)"

section \<open>Notions used to state the properties\<close>

text \<open>A template the pass acts on: active, and due at the instant of the pass.\<close>

definition dueActive :: "instant \<Rightarrow> 'n template \<Rightarrow> bool" where
  "dueActive today recurring = (isActive recurring \<and> isDue today recurring)"

text \<open>The template as the pass leaves it.\<close>

definition advance :: "instant \<Rightarrow> 'n template \<Rightarrow> 'n template" where
  "advance today recurring =
     (if dueActive today recurring
      then recurring\<lparr>lastProcessed := Some (format today),
                     nextDue := Some (format (addMonths (dueOf recurring)
                                                (monthsOf (frequency recurring))))\<rparr>
      else recurring)"

text \<open>
  The transactions a run hands to \<open>onAddTransaction\<close>, in the order of the calls:
  the run is given a callback that appends its argument to a log.
\<close>

definition emittedFrom :: "instant \<Rightarrow> (nat \<Rightarrow> real) \<Rightarrow> nat \<Rightarrow> 'n template list \<Rightarrow> 'n transaction list" where
  "emittedFrom today ids index ts =
     snd (snd (forEachRecurring (\<lambda>tx calls. calls @ [tx]) today ids index ts []))"

definition emitted :: "instant \<Rightarrow> (nat \<Rightarrow> real) \<Rightarrow> 'n template list \<Rightarrow> 'n transaction list" where
  "emitted today ids ts =
     snd (processRecurringTransactions (\<lambda>tx calls. calls @ [tx]) today ids ts [])"

definition emittedNow :: "instant \<Rightarrow> real \<Rightarrow> real \<Rightarrow> 'n template list \<Rightarrow> 'n transaction list" where
  "emittedNow today newId ident ts =
     snd (processNow (\<lambda>tx calls. calls @ [tx]) today newId ident ts [])"

text \<open>
  The calendar months of one period, for the frequencies that are measured in months.
\<close>

definition periodMonths :: "string \<Rightarrow> nat option" where
  "periodMonths f =
     (if f = ''monthly'' then Some 1
      else if f = ''quarterly'' then Some 3
      else if f = ''yearly'' then Some 12
      else None)"

text \<open>
  Two passes in a row at one instant: the second pass reads the collection the first
  one stored; the log of calls runs through both.
\<close>

definition twoPasses ::
  "instant \<Rightarrow> (nat \<Rightarrow> real) \<Rightarrow> (nat \<Rightarrow> real) \<Rightarrow> 'n template list \<Rightarrow> 'n transaction list" where
  "twoPasses today ids ids' ts =
     (case processRecurringTransactions (\<lambda>tx calls. calls @ [tx]) today ids ts [] of
        (ts1, calls1) \<Rightarrow>
          snd (processRecurringTransactions (\<lambda>tx calls. calls @ [tx]) today ids' ts1 calls1))"

text \<open>
  The predicates of the filter, one for each criterion, as the specification words them:
  the search text is found, without regard to case, in the description or in the
  category; type and category match exactly, \<^verbatim>\<open>'all'\<close> matching everything; the date lies
  in the range, \<^verbatim>\<open>today\<close> being the day of the evaluation and \<^verbatim>\<open>week\<close>, \<^verbatim>\<open>month\<close>,
  \<^verbatim>\<open>year\<close> the interval around it, any other value matching everything.
\<close>

definition searchMatches :: "string \<Rightarrow> 'n transaction \<Rightarrow> bool" where
  "searchMatches searchText t =
     (string_includes (toLowerCase (tx_description t)) (toLowerCase searchText)
      \<or> string_includes (toLowerCase (tx_category t)) (toLowerCase searchText))"

definition typeMatches :: "string \<Rightarrow> 'n transaction \<Rightarrow> bool" where
  "typeMatches ty t = (ty = ''all'' \<or> tx_type t = ty)"

definition categoryMatches :: "string \<Rightarrow> 'n transaction \<Rightarrow> bool" where
  "categoryMatches c t = (c = ''all'' \<or> tx_category t = c)"

definition dateRangeMatches :: "instant \<Rightarrow> string \<Rightarrow> 'n transaction \<Rightarrow> bool" where
  "dateRangeMatches now dr t =
     (if dr = ''today'' then tx_date t = format now
      else if dr = ''week''
        then isWithinInterval (parseISO (tx_date t)) (startOfWeek now, endOfWeek now)
      else if dr = ''month''
        then isWithinInterval (parseISO (tx_date t)) (startOfMonth now, endOfMonth now)
      else if dr = ''year''
        then isWithinInterval (parseISO (tx_date t)) (startOfYear now, endOfYear now)
      else True)"

definition matchesAll ::
  "instant \<Rightarrow> string \<Rightarrow> string \<Rightarrow> string \<Rightarrow> string \<Rightarrow> 'n transaction \<Rightarrow> bool" where
  "matchesAll now searchText ty c dr t =
     (searchMatches searchText t \<and> typeMatches ty t \<and> categoryMatches c t
      \<and> dateRangeMatches now dr t)"

text \<open>Later dates first.\<close>

definition laterFirst :: "'n transaction \<Rightarrow> 'n transaction \<Rightarrow> bool" where
  "laterFirst a b = (ymd (tx_date b) \<le> ymd (tx_date a))"

section \<open>Example data\<close>

definition mkDate :: "int \<Rightarrow> int \<Rightarrow> int \<Rightarrow> date" where
  "mkDate y m d = \<lparr>year = y, month = m, day = d\<rparr>"

definition rent :: "real template" where
  "rent = \<lparr>rt_id = 1, rt_type = ''expense'', rt_description = ''Rent'', rt_amount = 900,
            rt_category = ''Rent'', frequency = ''monthly'', startDate = mkDate 2024 1 1,
            endDate = None, isActive = True, lastProcessed = None,
            nextDue = Some (mkDate 2024 1 1), createdAt = ''2023-12-20T10:00:00.000Z''\<rparr>"

definition gym :: "real template" where
  "gym = \<lparr>rt_id = 2, rt_type = ''expense'', rt_description = ''Gym'', rt_amount = 20,
           rt_category = ''Subscription'', frequency = ''weekly'', startDate = mkDate 2024 1 1,
           endDate = None, isActive = True, lastProcessed = None,
           nextDue = Some (mkDate 2024 1 1), createdAt = ''2023-12-21T10:00:00.000Z''\<rparr>"

definition pausedRent :: "real template" where
  "pausedRent = rent\<lparr>rt_id := 3, isActive := False\<rparr>"

text \<open>Nine o'clock in the morning, in milliseconds after midnight.\<close>

definition nine :: nat where
  "nine = 32400000"

definition logCall :: "'n transaction \<Rightarrow> 'n transaction list \<Rightarrow> 'n transaction list" where
  "logCall tx calls = calls @ [tx]"

definition lunch :: "real transaction" where
  "lunch = \<lparr>tx_id = 101, tx_type = ''expense'', tx_description = ''Lunch'', tx_amount = 12,
             tx_category = ''Food'', tx_date = mkDate 2024 1 15, isRecurring = False,
             recurringId = None\<rparr>"

definition cinema :: "real transaction" where
  "cinema = \<lparr>tx_id = 102, tx_type = ''expense'', tx_description = ''Cinema'', tx_amount = 9,
              tx_category = ''Entertainment'', tx_date = mkDate 2024 1 16, isRecurring = False,
              recurringId = None\<rparr>"

definition salary :: "real transaction" where
  "salary = \<lparr>tx_id = 103, tx_type = ''income'', tx_description = ''Salary'', tx_amount = 2500,
              tx_category = ''Salary'', tx_date = mkDate 2024 1 16, isRecurring = False,
              recurringId = None\<rparr>"

definition dueOn :: "real \<Rightarrow> date \<Rightarrow> real template" where
  "dueOn ident d = rent\<lparr>rt_id := ident, nextDue := Some d\<rparr>"

text \<open>Six active templates with a due date, a paused one, and one without a due date.\<close>

definition manyTemplates :: "real template list" where
  "manyTemplates =
     [dueOn 10 (mkDate 2024 6 1), dueOn 11 (mkDate 2024 2 1), pausedRent,
      dueOn 12 (mkDate 2024 4 1), dueOn 13 (mkDate 2024 1 5),
      (dueOn 14 (mkDate 2024 5 1))\<lparr>nextDue := None\<rparr>,
      dueOn 15 (mkDate 2024 3 1), dueOn 16 (mkDate 2024 7 1)]"

text \<open>A backend that rejects every request, and a tracker with no transaction yet.\<close>

definition rejecting :: "'n backend" where
  "rejecting = \<lparr>post_transactions = (\<lambda>payload. None),
                  put_transactions = (\<lambda>ident payload. None)\<rparr>"

definition emptyTracker :: "'n tracker" where
  "emptyTracker = \<lparr>transactions = [], editingTransaction = None, showTransactionForm = False\<rparr>"

section \<open>The loop of the pass, step by step\<close>

lemma forEach_Cons:
  "forEachRecurring cb today ids i (r # rs) s =
     (let s1 = (if dueActive today r then cb (newTransaction ''(Auto)'' (ids i) today r) s else s);
          rest = forEachRecurring cb today ids (Suc i) rs s1
      in (advance today r # fst rest, dueActive today r \<or> fst (snd rest), snd (snd rest)))"
  by (simp add: advance_def dueActive_def isDue_def Let_def split_beta)

lemma forEach_templates:
  "fst (forEachRecurring cb today ids i ts s) = map (advance today) ts"
  by (induction ts arbitrary: i s) (simp_all add: forEach_Cons Let_def del: forEachRecurring.simps(2))

lemma forEach_flag:
  "fst (snd (forEachRecurring cb today ids i ts s)) = (\<exists>r\<in>set ts. dueActive today r)"
  by (induction ts arbitrary: i s) (simp_all add: forEach_Cons Let_def del: forEachRecurring.simps(2))

lemma forEach_log:
  "snd (snd (forEachRecurring (\<lambda>tx calls. calls @ [tx]) today ids i ts l0))
     = l0 @ emittedFrom today ids i ts"
proof (induction ts arbitrary: i l0)
  case Nil
  show ?case by (simp add: emittedFrom_def)
next
  case (Cons r rs)
  have step: "\<And>l. snd (snd (forEachRecurring (\<lambda>tx calls. calls @ [tx]) today ids (Suc i) rs l))
     = l @ emittedFrom today ids (Suc i) rs" by (rule Cons.IH)
  show ?case
    by (simp add: emittedFrom_def[of today ids i] forEach_Cons Let_def step
             del: forEachRecurring.simps(2))
qed

lemma emittedFrom_Nil: "emittedFrom today ids i [] = []"
  by (simp add: emittedFrom_def)

lemma emittedFrom_Cons:
  "emittedFrom today ids i (r # rs) =
     (if dueActive today r
      then newTransaction ''(Auto)'' (ids i) today r # emittedFrom today ids (Suc i) rs
      else emittedFrom today ids (Suc i) rs)"
  by (simp add: emittedFrom_def[of today ids i] forEach_Cons Let_def forEach_log
           del: forEachRecurring.simps(2))

lemma forEach_state:
  "snd (snd (forEachRecurring cb today ids i ts s))
     = foldl (\<lambda>s tx. cb tx s) s (emittedFrom today ids i ts)"
  by (induction ts arbitrary: i s)
     (simp_all add: emittedFrom_Nil emittedFrom_Cons forEach_Cons Let_def
               del: forEachRecurring.simps(2))

lemma advance_id: "\<not> dueActive today r \<Longrightarrow> advance today r = r"
  by (simp add: advance_def)

lemma pass_templates:
  "fst (processRecurringTransactions cb today ids ts s) = map (advance today) ts"
proof -
  have "\<not> (\<exists>r\<in>set ts. dueActive today r) \<Longrightarrow> map (advance today) ts = ts"
    by (induction ts) (auto simp: advance_id)
  then show ?thesis
    using forEach_templates[of cb today ids 0 ts s] forEach_flag[of cb today ids 0 ts s]
    by (auto simp: processRecurringTransactions_def split: prod.splits)
qed

lemma pass_state:
  "snd (processRecurringTransactions cb today ids ts s)
     = foldl (\<lambda>s tx. cb tx s) s (emittedFrom today ids 0 ts)"
  using forEach_state[of cb today ids 0 ts s]
  by (auto simp: processRecurringTransactions_def split: prod.splits)

lemma emitted_eq: "emitted today ids ts = emittedFrom today ids 0 ts"
  by (simp add: emitted_def emittedFrom_def processRecurringTransactions_def split_beta)

section \<open>Advancing the due date\<close>

lemma toInteger_quarter: "toInteger 0.25 = 0"
  by (simp add: toInteger_def)

lemma periodMonths_monthsOf: "periodMonths f = Some k \<Longrightarrow> monthsOf f = real k"
  by (auto simp: periodMonths_def monthsOf_def split: if_splits)

lemma addMonths_weekly: "addMonths t (monthsOf ''weekly'') = t"
  by (simp add: addMonths_def monthsOf_def toInteger_def)

lemma isDue_same_day: "isDue (d, ms) (r\<lparr>nextDue := Some d\<rparr>)"
  by (simp add: isDue_def dueOf_def parseISO_def format_def)

text \<open>
  A weekly template that is due stays due: the pass writes back the very date it read.
\<close>

lemma weekly_not_advanced:
  assumes "dueActive today r" and "frequency r = ''weekly''"
  shows "nextDue (advance today r) = Some (format (dueOf r))"
  using assms by (simp add: advance_def addMonths_weekly)

text \<open>
  C1. Every active template that is due at a pass has its \<open>nextDue\<close> advanced by one
  period of its frequency, 7 days for a weekly one. The code does not do this for the
  weekly frequency: it asks \<open>addMonths\<close> for a quarter of a month, which is no month at
  all. Here the pass runs on 2024-01-01 at nine over one active weekly template that is due
  on 2024-01-01: one transaction is emitted, and \<open>nextDue\<close> is 2024-01-01 again, not
  2024-01-08.
\<close>

theorem weekly_pass_keeps_nextDue:
  "processRecurringTransactions logCall (mkDate 2024 1 1, nine) (\<lambda>i. 0) [gym] []
     = ([gym\<lparr>lastProcessed := Some (mkDate 2024 1 1), nextDue := Some (mkDate 2024 1 1)\<rparr>],
        [newTransaction ''(Auto)'' 0 (mkDate 2024 1 1, nine) gym])
   \<and> isActive gym \<and> frequency gym = ''weekly'' \<and> nextDue gym = Some (mkDate 2024 1 1)"
proof -
  have due: "dueActive (mkDate 2024 1 1, nine) gym"
    by (simp add: dueActive_def isDue_def dueOf_def gym_def parseISO_def format_def)
  have adv: "advance (mkDate 2024 1 1, nine) gym
      = gym\<lparr>lastProcessed := Some (mkDate 2024 1 1), nextDue := Some (mkDate 2024 1 1)\<rparr>"
    using due by (simp add: advance_def addMonths_weekly format_def dueOf_def parseISO_def gym_def)
  have "forEachRecurring logCall (mkDate 2024 1 1, nine) (\<lambda>i. 0) 0 [gym] []
      = ([gym\<lparr>lastProcessed := Some (mkDate 2024 1 1), nextDue := Some (mkDate 2024 1 1)\<rparr>],
         True, [newTransaction ''(Auto)'' 0 (mkDate 2024 1 1, nine) gym])"
    using due adv by (simp add: forEach_Cons logCall_def del: forEachRecurring.simps(2))
  then show ?thesis
    by (simp add: processRecurringTransactions_def gym_def)
qed

section \<open>Emission and the store\<close>

lemma rent_due_jan1: "dueActive (mkDate 2024 1 1, nine) rent"
  by (simp add: dueActive_def isDue_def dueOf_def rent_def parseISO_def format_def)

lemma handleSave_rejecting: "handleSaveTransaction rejecting None tx s = s"
  by (simp add: handleSaveTransaction_def createTransaction_def rejecting_def)

lemma addMonths_jan1: "addMonths (mkDate 2024 1 1, 0) 1 = (mkDate 2024 2 1, 0)"
  by (simp add: addMonths_def toInteger_def mkDate_def getDaysInMonth_def Let_def)

text \<open>
  C2, as stated: when the store rejects the write of an emitted transaction, \<open>nextDue\<close>
  and \<open>lastProcessed\<close> of the template keep their prior values. The pass does not look
  at the outcome: with a backend that rejects every request, a pass on 2024-01-01 over the
  monthly template due on 2024-01-01 leaves the tracker without any transaction, and
  still moves \<open>nextDue\<close> to 2024-02-01 and sets \<open>lastProcessed\<close>.
\<close>

theorem rejected_write_still_advances:
  "processRecurringTransactions (handleSaveTransaction rejecting None) (mkDate 2024 1 1, nine)
       (\<lambda>i. 0) [rent] emptyTracker
     = ([rent\<lparr>lastProcessed := Some (mkDate 2024 1 1), nextDue := Some (mkDate 2024 2 1)\<rparr>],
        emptyTracker)
   \<and> transactions emptyTracker = []
   \<and> nextDue rent = Some (mkDate 2024 1 1) \<and> lastProcessed rent = None"
proof -
  have adv: "advance (mkDate 2024 1 1, nine) rent
      = rent\<lparr>lastProcessed := Some (mkDate 2024 1 1), nextDue := Some (mkDate 2024 2 1)\<rparr>"
    using rent_due_jan1
    by (simp add: advance_def monthsOf_def dueOf_def parseISO_def format_def rent_def addMonths_jan1)
  have "forEachRecurring (handleSaveTransaction rejecting None) (mkDate 2024 1 1, nine)
          (\<lambda>i. 0) 0 [rent] emptyTracker
      = ([rent\<lparr>lastProcessed := Some (mkDate 2024 1 1), nextDue := Some (mkDate 2024 2 1)\<rparr>],
         True, emptyTracker)"
    using rent_due_jan1 adv
    by (simp add: forEach_Cons handleSave_rejecting del: forEachRecurring.simps(2))
  then show ?thesis
    by (simp add: processRecurringTransactions_def rent_def emptyTracker_def)
qed

lemma handleSave_all_rejected:
  assumes "\<forall>payload. post_transactions b payload = None"
    and "\<forall>ident payload. put_transactions b ident payload = None"
  shows "handleSaveTransaction b editing tx s = s"
  using assms
  by (simp add: handleSaveTransaction_def createTransaction_def updateTransaction_def
        split: option.splits)

lemma foldl_id: "(\<And>x a. f a x = a) \<Longrightarrow> foldl f s xs = s"
  by (induction xs) simp_all

text \<open>
  C2, amended: when the store rejects every write, the pass commits no transaction and
  still advances a due active template with a monthly, quarterly or yearly frequency: it
  sets \<open>lastProcessed\<close> to the day of the pass and \<open>nextDue\<close> to the previous due date
  plus one period (1, 3 or 12 calendar months), and changes no other field. The
  collection the pass stores is the one it stores with any other callback and store; the
  pass does not look at the outcome of the write.
\<close>

theorem rejected_write_advances_template:
  assumes "i < length ts" and "isActive (ts ! i)" and "isDue today (ts ! i)"
    and "periodMonths (frequency (ts ! i)) = Some k"
    and "\<forall>payload. post_transactions b payload = None"
    and "\<forall>ident payload. put_transactions b ident payload = None"
  shows "snd (processRecurringTransactions (handleSaveTransaction b editing) today ids ts tr) = tr
       \<and> fst (processRecurringTransactions (handleSaveTransaction b editing) today ids ts tr) ! i
           = (ts ! i)\<lparr>lastProcessed := Some (format today),
                       nextDue := Some (format (addMonths (dueOf (ts ! i)) (real k)))\<rparr>
       \<and> fst (processRecurringTransactions (handleSaveTransaction b editing) today ids ts tr)
           = fst (processRecurringTransactions onAdd today ids ts s)"
proof -
  have st: "snd (processRecurringTransactions (handleSaveTransaction b editing) today ids ts tr) = tr"
    using handleSave_all_rejected[OF assms(5,6)]
    by (simp add: pass_state foldl_id)
  have m: "monthsOf (frequency (ts ! i)) = real k"
    using assms(4) by (rule periodMonths_monthsOf)
  have d: "dueActive today (ts ! i)" using assms(2,3) by (simp add: dueActive_def)
  have t: "fst (processRecurringTransactions (handleSaveTransaction b editing) today ids ts tr) ! i
           = (ts ! i)\<lparr>lastProcessed := Some (format today),
                       nextDue := Some (format (addMonths (dueOf (ts ! i)) (real k)))\<rparr>"
    using assms(1) d by (simp add: pass_templates advance_def m)
  have e: "fst (processRecurringTransactions (handleSaveTransaction b editing) today ids ts tr)
           = fst (processRecurringTransactions onAdd today ids ts s)"
    by (simp add: pass_templates)
  from st t e show ?thesis by simp
qed

theorem rejected_write_advances_template_witness:
  "(0::nat) < length [rent] \<and> isActive ([rent] ! 0) \<and> isDue (mkDate 2024 1 1, nine) ([rent] ! 0)
   \<and> periodMonths (frequency ([rent] ! 0)) = Some 1
   \<and> post_transactions (rejecting :: real backend) lunch = None
   \<and> put_transactions (rejecting :: real backend) 101 lunch = None
   \<and> snd (processRecurringTransactions (handleSaveTransaction rejecting None)
            (mkDate 2024 1 1, nine) (\<lambda>i. 0) [rent] emptyTracker) = emptyTracker
   \<and> fst (processRecurringTransactions (handleSaveTransaction rejecting None)
            (mkDate 2024 1 1, nine) (\<lambda>i. 0) [rent] emptyTracker) ! 0
       = rent\<lparr>lastProcessed := Some (mkDate 2024 1 1), nextDue := Some (mkDate 2024 2 1)\<rparr>
   \<and> fst (processRecurringTransactions (handleSaveTransaction rejecting None)
            (mkDate 2024 1 1, nine) (\<lambda>i. 0) [rent] emptyTracker)
       = fst (processRecurringTransactions logCall (mkDate 2024 1 1, nine) (\<lambda>i. 0) [rent] [])"
proof -
  have h1: "(0::nat) < length [rent]" by simp
  have h2: "isActive ([rent] ! 0)" by (simp add: rent_def)
  have h3: "isDue (mkDate 2024 1 1, nine) ([rent] ! 0)"
    using rent_due_jan1 by (simp add: dueActive_def)
  have h4: "periodMonths (frequency ([rent] ! 0)) = Some 1"
    by (simp add: periodMonths_def rent_def)
  have h5: "\<forall>payload. post_transactions (rejecting :: real backend) payload = None"
    by (simp add: rejecting_def)
  have h6: "\<forall>ident payload. put_transactions (rejecting :: real backend) ident payload = None"
    by (simp add: rejecting_def)
  have d: "dueOf rent = (mkDate 2024 1 1, 0)" by (simp add: dueOf_def rent_def parseISO_def)
  show ?thesis
    using rejected_write_advances_template[OF h1 h2 h3 h4 h5 h6,
        of None "\<lambda>i. 0" emptyTracker logCall "[]"] h1 h2 h3 h4 h5 h6
    by (auto simp: d addMonths_jan1 format_def)
qed

section \<open>Paused templates\<close>

lemma emittedFrom_origin:
  "tx \<in> set (emittedFrom today ids i ts) \<Longrightarrow>
     \<exists>r\<in>set ts. dueActive today r \<and> recurringId tx = Some (rt_id r)"
  by (induction ts arbitrary: i)
     (auto simp: emittedFrom_Nil emittedFrom_Cons newTransaction_def split: if_splits)

lemma distinct_ids_eq:
  "distinct (map rt_id ts) \<Longrightarrow> r \<in> set ts \<Longrightarrow> r' \<in> set ts \<Longrightarrow> rt_id r = rt_id r' \<Longrightarrow> r = r'"
  by (meson distinct_map inj_on_def)

lemma find_distinct_ids:
  "distinct (map rt_id ts) \<Longrightarrow> r \<in> set ts \<Longrightarrow> find (\<lambda>t. rt_id t = rt_id r) ts = Some r"
  by (induction ts) (auto simp: rev_image_eqI)

lemma processNow_templates:
  "fst (processNow cb today newId ident ts s) =
     (case find (\<lambda>t. rt_id t = ident) ts of
        None \<Rightarrow> ts
      | Some r \<Rightarrow>
          map (\<lambda>t. if rt_id t = ident
                    then t\<lparr>lastProcessed := Some (format today),
                           nextDue := Some (format (addMonths today (monthsOf (frequency r))))\<rparr>
                    else t) ts)"
  by (simp add: processNow_def Let_def split: option.splits)

lemma emittedNow_eq:
  "emittedNow today newId ident ts =
     (case find (\<lambda>t. rt_id t = ident) ts of
        None \<Rightarrow> []
      | Some r \<Rightarrow> [newTransaction ''(Manual)'' newId today r])"
  by (simp add: emittedNow_def processNow_def Let_def split: option.splits)

lemma triggers_active:
  "ident \<in> set (processNowTriggers ts) \<Longrightarrow> \<exists>r\<in>set ts. isActive r \<and> rt_id r = ident"
proof -
  assume a: "ident \<in> set (processNowTriggers ts)"
  have "set (upcomingTransactions ts) \<subseteq> set (activeRecurring ts)"
    unfolding upcomingTransactions_def
    by (rule subset_trans[OF set_take_subset]) auto
  with a have "ident \<in> rt_id ` set (activeRecurring ts)"
    by (auto simp: processNowTriggers_def)
  then show ?thesis by (auto simp: activeRecurring_def)
qed

lemma rent_due_mar15: "dueActive (mkDate 2024 3 15, nine) rent"
  by (simp add: dueActive_def isDue_def dueOf_def rent_def parseISO_def format_def
        isAfter_def getTime_def ymd_def mkDate_def)

lemma paused_not_dueActive: "\<not> dueActive today pausedRent"
  by (simp add: dueActive_def pausedRent_def)

text \<open>
  C3, as stated: no operation emits a transaction from a template with
  \<open>isActive = false\<close>, neither the pass nor \<open>processNow\<close>. The function \<open>processNow\<close>
  has no test of \<open>isActive\<close>: called with the identifier of the paused template, it emits
  a transaction that refers to it.
\<close>

theorem paused_template_emits_on_processNow:
  "emittedNow (mkDate 2024 3 15, nine) 0 (rt_id pausedRent) [rent, pausedRent]
     = [newTransaction ''(Manual)'' 0 (mkDate 2024 3 15, nine) pausedRent]
   \<and> recurringId (newTransaction ''(Manual)'' 0 (mkDate 2024 3 15, nine) pausedRent)
       = Some (rt_id pausedRent)
   \<and> isActive pausedRent = False"
  by (simp add: emittedNow_eq pausedRent_def rent_def newTransaction_def)

text \<open>
  C3, amended: in a collection whose identifiers are distinct, the pass emits no
  transaction that refers to a paused template, however overdue the template is; the
  component offers no \<open>processNow\<close> trigger for a paused template, and no trigger it
  offers emits a transaction that refers to one. (\<open>processNow\<close> itself emits for whatever
  identifier it is given.)
\<close>

theorem paused_template_not_emitted:
  assumes "distinct (map rt_id ts)" and "r \<in> set ts" and "\<not> isActive r"
  shows "(\<forall>tx\<in>set (emitted today ids ts). recurringId tx \<noteq> Some (rt_id r))
       \<and> rt_id r \<notin> set (processNowTriggers ts)
       \<and> (\<forall>ident\<in>set (processNowTriggers ts).
            \<forall>tx\<in>set (emittedNow today newId ident ts). recurringId tx \<noteq> Some (rt_id r))"
proof -
  have other: "rt_id r' \<noteq> rt_id r" if "r' \<in> set ts" and "isActive r'" for r'
    using that assms distinct_ids_eq[of ts r' r] by auto
  have pass: "\<forall>tx\<in>set (emitted today ids ts). recurringId tx \<noteq> Some (rt_id r)"
  proof
    fix tx assume "tx \<in> set (emitted today ids ts)"
    then obtain r' where "r' \<in> set ts" "dueActive today r'" "recurringId tx = Some (rt_id r')"
      using emittedFrom_origin[of tx today ids 0 ts] by (auto simp: emitted_eq)
    then show "recurringId tx \<noteq> Some (rt_id r)"
      using other[of r'] by (simp add: dueActive_def)
  qed
  have trig: "rt_id r \<notin> set (processNowTriggers ts)"
    using triggers_active[of "rt_id r" ts] other by auto
  have now: "\<forall>ident\<in>set (processNowTriggers ts).
      \<forall>tx\<in>set (emittedNow today newId ident ts). recurringId tx \<noteq> Some (rt_id r)"
  proof (intro ballI)
    fix ident tx
    assume i: "ident \<in> set (processNowTriggers ts)"
      and t: "tx \<in> set (emittedNow today newId ident ts)"
    from t obtain r' where f: "find (\<lambda>t. rt_id t = ident) ts = Some r'"
      and tx: "tx = newTransaction ''(Manual)'' newId today r'"
      by (cases "find (\<lambda>t. rt_id t = ident) ts") (auto simp: emittedNow_eq)
    from f have "rt_id r' = ident" by (auto simp: find_Some_iff)
    with i trig tx show "recurringId tx \<noteq> Some (rt_id r)"
      by (auto simp: newTransaction_def)
  qed
  from pass trig now show ?thesis by blast
qed

theorem paused_template_not_emitted_witness:
  "distinct (map rt_id [rent, pausedRent]) \<and> pausedRent \<in> set [rent, pausedRent]
   \<and> \<not> isActive pausedRent
   \<and> emitted (mkDate 2024 3 15, nine) (\<lambda>i. 0) [rent, pausedRent]
       = [newTransaction ''(Auto)'' 0 (mkDate 2024 3 15, nine) rent]
   \<and> processNowTriggers [rent, pausedRent] = [1, 1]
   \<and> list_all (\<lambda>tx. recurringId tx \<noteq> Some (rt_id pausedRent))
        (emitted (mkDate 2024 3 15, nine) (\<lambda>i. 0) [rent, pausedRent])
   \<and> rt_id pausedRent \<notin> set (processNowTriggers [rent, pausedRent])
   \<and> list_all (\<lambda>ident. list_all (\<lambda>tx. recurringId tx \<noteq> Some (rt_id pausedRent))
                  (emittedNow (mkDate 2024 3 15, nine) 0 ident [rent, pausedRent]))
        (processNowTriggers [rent, pausedRent])"
proof -
  have h1: "distinct (map rt_id [rent, pausedRent])" by (simp add: rent_def pausedRent_def)
  have h2: "pausedRent \<in> set [rent, pausedRent]" by simp
  have h3: "\<not> isActive pausedRent" by (simp add: pausedRent_def)
  have e: "emitted (mkDate 2024 3 15, nine) (\<lambda>i. 0) [rent, pausedRent]
       = [newTransaction ''(Auto)'' 0 (mkDate 2024 3 15, nine) rent]"
    by (simp add: emitted_eq emittedFrom_Cons emittedFrom_Nil rent_due_mar15 paused_not_dueActive)
  have t: "processNowTriggers [rent, pausedRent] = [1, 1]"
    by (simp add: processNowTriggers_def upcomingTransactions_def activeRecurring_def
          rent_def pausedRent_def)
  show ?thesis
    using paused_template_not_emitted[OF h1 h2 h3, of "(mkDate 2024 3 15, nine)" "\<lambda>i. 0" 0]
      h1 h2 h3 e t
    by (simp add: list_all_iff)
qed

section \<open>The anchor of the next due date\<close>


lemma ymd_inj: "ymd (a::date) = ymd b \<longleftrightarrow> a = b"
  by (cases a; cases b) (simp add: ymd_def)

lemma dueOf_midnight: "snd (dueOf r) = 0"
  by (simp add: dueOf_def parseISO_def split: option.splits)

lemma lex_midnight: "((b::'a::linorder, 0::nat) < (a, ms) \<or> a = b) \<longleftrightarrow> b \<le> a"
  by (auto simp: less_prod_def)

lemma isDue_iff: "isDue today r \<longleftrightarrow> ymd (format (dueOf r)) \<le> ymd (format today)"
proof -
  obtain D ms where t: "today = (D, ms)" by (cases today)
  obtain d where d: "dueOf r = (d, 0)" using dueOf_midnight[of r] by (cases "dueOf r") auto
  have "isDue today r \<longleftrightarrow> ((ymd d, 0::nat) < (ymd D, ms) \<or> ymd D = ymd d)"
    by (simp add: isDue_def isAfter_def getTime_def format_def t d ymd_inj)
  also have "\<dots> \<longleftrightarrow> ymd d \<le> ymd D"
    by (rule lex_midnight)
  finally show ?thesis
    by (simp add: format_def t d)
qed

lemma addMonths_jan20: "addMonths (mkDate 2024 1 20, nine) 1 = (mkDate 2024 2 20, nine)"
  by (simp add: addMonths_def toInteger_def mkDate_def getDaysInMonth_def Let_def)

lemma rent_due_jan20: "dueActive (mkDate 2024 1 20, nine) rent"
  by (simp add: dueActive_def isDue_iff dueOf_def rent_def parseISO_def format_def ymd_def mkDate_def)

text \<open>
  C4, as stated: for a due template processed by the pass or by \<open>processNow\<close>, the new
  \<open>nextDue\<close> is the previous due date plus one period, not the evaluation time plus one
  period. \<open>processNow\<close> starts from the evaluation time: run on 2024-01-20 for the
  monthly template due on 2024-01-01, it stores 2024-02-20, where the previous due date plus
  one month is 2024-02-01.
\<close>

theorem processNow_anchors_at_now:
  "map nextDue (fst (processNow logCall (mkDate 2024 1 20, nine) 0 1 [rent] []))
     = [Some (mkDate 2024 2 20)]
   \<and> format (addMonths (dueOf rent) 1) = mkDate 2024 2 1
   \<and> isActive rent \<and> isDue (mkDate 2024 1 20, nine) rent \<and> frequency rent = ''monthly''"
proof -
  have f: "find (\<lambda>t. rt_id t = 1) [rent] = Some rent" by (simp add: rent_def)
  have m: "monthsOf (frequency rent) = 1" by (simp add: monthsOf_def rent_def)
  have i: "rt_id rent = 1" by (simp add: rent_def)
  have a: "map nextDue (fst (processNow logCall (mkDate 2024 1 20, nine) 0 1 [rent] []))
     = [Some (mkDate 2024 2 20)]"
    by (simp add: processNow_templates f m i addMonths_jan20 format_def)
  have d: "dueOf rent = (mkDate 2024 1 1, 0)" by (simp add: dueOf_def rent_def parseISO_def)
  have b: "format (addMonths (dueOf rent) 1) = mkDate 2024 2 1"
    by (simp add: d addMonths_jan1 format_def)
  show ?thesis
    using a b rent_due_jan20 by (simp add: dueActive_def rent_def)
qed

text \<open>
  C4, amended: for a due active template with a monthly, quarterly or yearly frequency,
  in a collection with distinct identifiers, the pass stores as \<open>nextDue\<close> the previous
  due date plus one period (1, 3 or 12 calendar months), and \<open>processNow\<close> stores the
  day of the evaluation time plus one period.
\<close>

theorem nextDue_anchor:
  assumes "distinct (map rt_id ts)" and "i < length ts"
    and "isActive (ts ! i)" and "isDue today (ts ! i)"
    and "periodMonths (frequency (ts ! i)) = Some k"
  shows "nextDue (fst (processRecurringTransactions onAdd today ids ts s) ! i)
           = Some (format (addMonths (dueOf (ts ! i)) (real k)))
       \<and> nextDue (fst (processNow onAdd today newId (rt_id (ts ! i)) ts s) ! i)
           = Some (format (addMonths today (real k)))"
proof -
  have m: "monthsOf (frequency (ts ! i)) = real k"
    using assms(5) by (rule periodMonths_monthsOf)
  have d: "dueActive today (ts ! i)" using assms(3,4) by (simp add: dueActive_def)
  have p: "nextDue (fst (processRecurringTransactions onAdd today ids ts s) ! i)
           = Some (format (addMonths (dueOf (ts ! i)) (real k)))"
    using assms(2) d by (simp add: pass_templates advance_def m)
  have f: "find (\<lambda>t. rt_id t = rt_id (ts ! i)) ts = Some (ts ! i)"
    using assms(1,2) by (simp add: find_distinct_ids)
  have n: "nextDue (fst (processNow onAdd today newId (rt_id (ts ! i)) ts s) ! i)
           = Some (format (addMonths today (real k)))"
    using assms(2) by (simp add: processNow_templates f m)
  from p n show ?thesis by simp
qed

theorem nextDue_anchor_witness:
  "distinct (map rt_id [rent]) \<and> (0::nat) < length [rent] \<and> isActive ([rent] ! 0)
   \<and> isDue (mkDate 2024 1 20, nine) ([rent] ! 0)
   \<and> periodMonths (frequency ([rent] ! 0)) = Some 1
   \<and> nextDue (fst (processRecurringTransactions logCall (mkDate 2024 1 20, nine) (\<lambda>i. 0) [rent] []) ! 0)
       = Some (mkDate 2024 2 1)
   \<and> nextDue (fst (processNow logCall (mkDate 2024 1 20, nine) 0 (rt_id ([rent] ! 0)) [rent] []) ! 0)
       = Some (mkDate 2024 2 20)"
proof -
  have h1: "distinct (map rt_id [rent])" by simp
  have h2: "(0::nat) < length [rent]" by simp
  have h3: "isActive ([rent] ! 0)" by (simp add: rent_def)
  have h4: "isDue (mkDate 2024 1 20, nine) ([rent] ! 0)"
    using rent_due_jan20 by (simp add: dueActive_def)
  have h5: "periodMonths (frequency ([rent] ! 0)) = Some 1"
    by (simp add: periodMonths_def rent_def)
  have d: "dueOf rent = (mkDate 2024 1 1, 0)" by (simp add: dueOf_def rent_def parseISO_def)
  show ?thesis
    using nextDue_anchor[OF h1 h2 h3 h4 h5, of logCall "\<lambda>i. 0" "[]" 0] h1 h2 h3 h4 h5
    by (simp add: d addMonths_jan1 addMonths_jan20 format_def)
qed

section \<open>Two passes at one instant\<close>

lemma advance_not_due:
  assumes "dueActive today r \<Longrightarrow>
     ymd (format today) < ymd (format (addMonths (dueOf r) (monthsOf (frequency r))))"
  shows "\<not> dueActive today (advance today r)"
proof (cases "dueActive today r")
  case True
  have "dueOf (advance today r) = parseISO (format (addMonths (dueOf r) (monthsOf (frequency r))))"
    using True by (simp add: advance_def dueOf_def)
  then have "\<not> isDue today (advance today r)"
    using assms[OF True] by (simp add: isDue_iff parseISO_def format_def)
  then show ?thesis by (simp add: dueActive_def)
next
  case False
  then show ?thesis by (simp add: advance_def)
qed

lemma emittedFrom_none:
  "(\<forall>r\<in>set ts. \<not> dueActive today r) \<Longrightarrow> emittedFrom today ids i ts = []"
  by (induction ts arbitrary: i) (simp_all add: emittedFrom_Nil emittedFrom_Cons)

lemma emittedFrom_ids:
  "map recurringId (emittedFrom today ids i ts)
     = map (\<lambda>r. Some (rt_id r)) (filter (dueActive today) ts)"
  by (induction ts arbitrary: i)
     (simp_all add: emittedFrom_Nil emittedFrom_Cons newTransaction_def)

lemma pass_log:
  "snd (processRecurringTransactions (\<lambda>tx calls. calls @ [tx]) today ids ts l0)
     = l0 @ emittedFrom today ids 0 ts"
  using forEach_log[of today ids 0 ts l0]
  by (simp add: processRecurringTransactions_def split_beta)

lemma twoPasses_eq:
  "twoPasses today ids ids' ts
     = emittedFrom today ids 0 ts @ emittedFrom today ids' 0 (map (advance today) ts)"
  using pass_templates[of "\<lambda>tx calls. calls @ [tx]" today ids ts "[]"]
    pass_log[of today ids ts "[]"]
  by (simp add: twoPasses_def pass_log split_beta)

text \<open>
  C5, as stated: two passes at one instant emit exactly one transaction per due active
  template in total. The monthly template due on 2024-01-01 is the one due active template
  of the collection on 2024-03-15; the first pass moves it to 2024-02-01, which is still
  not after the day of the pass, and the second pass emits for it again.
\<close>

theorem second_pass_emits_again:
  "map recurringId (twoPasses (mkDate 2024 3 15, nine) (\<lambda>i. 0) (\<lambda>i. 1) [rent])
     = [Some (rt_id rent), Some (rt_id rent)]
   \<and> filter (dueActive (mkDate 2024 3 15, nine)) [rent] = [rent]"
proof -
  have d: "dueOf rent = (mkDate 2024 1 1, 0)" by (simp add: dueOf_def rent_def parseISO_def)
  have m: "monthsOf (frequency rent) = 1" by (simp add: monthsOf_def rent_def)
  have a: "advance (mkDate 2024 3 15, nine) rent
      = rent\<lparr>lastProcessed := Some (mkDate 2024 3 15), nextDue := Some (mkDate 2024 2 1)\<rparr>"
    using rent_due_mar15 by (simp add: advance_def d m addMonths_jan1 format_def)
  have d2: "dueActive (mkDate 2024 3 15, nine)
      (rent\<lparr>lastProcessed := Some (mkDate 2024 3 15), nextDue := Some (mkDate 2024 2 1)\<rparr>)"
    by (simp add: dueActive_def isDue_iff dueOf_def parseISO_def format_def ymd_def mkDate_def rent_def)
  show ?thesis
    using rent_due_mar15 d2
    by (simp add: twoPasses_eq emittedFrom_Cons emittedFrom_Nil a newTransaction_def)
qed

text \<open>
  C5, amended: when the first pass moves every due active template to a date after the
  day of the pass, two passes at one instant emit exactly one transaction per due active
  template in total: the second pass emits nothing.
\<close>

theorem two_passes_emit_once:
  assumes "\<forall>r\<in>set ts. dueActive today r \<longrightarrow>
     ymd (format today) < ymd (format (addMonths (dueOf r) (monthsOf (frequency r))))"
  shows "map recurringId (twoPasses today ids ids' ts)
           = map (\<lambda>r. Some (rt_id r)) (filter (dueActive today) ts)
       \<and> length (twoPasses today ids ids' ts) = length (filter (dueActive today) ts)"
proof -
  have "\<forall>r\<in>set (map (advance today) ts). \<not> dueActive today r"
    using assms advance_not_due[of today] by auto
  then have "emittedFrom today ids' 0 (map (advance today) ts) = []"
    by (rule emittedFrom_none)
  then have e: "twoPasses today ids ids' ts = emittedFrom today ids 0 ts"
    by (simp add: twoPasses_eq)
  have "map recurringId (twoPasses today ids ids' ts)
           = map (\<lambda>r. Some (rt_id r)) (filter (dueActive today) ts)"
    by (simp add: e emittedFrom_ids)
  then show ?thesis
    using length_map[of recurringId "twoPasses today ids ids' ts"] by simp
qed

theorem two_passes_emit_once_witness:
  "dueActive (mkDate 2024 1 20, nine) rent
   \<and> ymd (format (mkDate 2024 1 20, nine))
       < ymd (format (addMonths (dueOf rent) (monthsOf (frequency rent))))
   \<and> \<not> dueActive (mkDate 2024 1 20, nine) pausedRent
   \<and> map recurringId (twoPasses (mkDate 2024 1 20, nine) (\<lambda>i. 0) (\<lambda>i. 1) [rent, pausedRent])
       = [Some 1]
   \<and> length (twoPasses (mkDate 2024 1 20, nine) (\<lambda>i. 0) (\<lambda>i. 1) [rent, pausedRent]) = 1"
proof -
  have d: "dueOf rent = (mkDate 2024 1 1, 0)" by (simp add: dueOf_def rent_def parseISO_def)
  have m: "monthsOf (frequency rent) = 1" by (simp add: monthsOf_def rent_def)
  have "format (addMonths (dueOf rent) (monthsOf (frequency rent))) = mkDate 2024 2 1"
    by (simp add: d m addMonths_jan1 format_def)
  then have lt: "ymd (format (mkDate 2024 1 20, nine))
       < ymd (format (addMonths (dueOf rent) (monthsOf (frequency rent))))"
    by (simp add: format_def ymd_def mkDate_def)
  have h: "\<forall>r\<in>set [rent, pausedRent]. dueActive (mkDate 2024 1 20, nine) r \<longrightarrow>
     ymd (format (mkDate 2024 1 20, nine)) < ymd (format (addMonths (dueOf r) (monthsOf (frequency r))))"
    using lt paused_not_dueActive by simp
  show ?thesis
    using two_passes_emit_once[OF h, of "\<lambda>i. 0" "\<lambda>i. 1"] lt rent_due_jan20 paused_not_dueActive
    by (simp add: rent_def)
qed

section \<open>The filter\<close>

lemma sortByDateDesc_mset: "mset (sortByDateDesc xs) = mset xs"
  by (simp add: sortByDateDesc_def)

lemma sortByDateDesc_sorted: "sorted_wrt laterFirst (sortByDateDesc xs)"
proof -
  have "sorted (map (\<lambda>t. ymd (tx_date t)) (sort_key (\<lambda>t. ymd (tx_date t)) (rev xs)))"
    by (rule sorted_sort_key)
  then have "sorted_wrt (\<lambda>a b. ymd (tx_date a) \<le> ymd (tx_date b))
               (sort_key (\<lambda>t. ymd (tx_date t)) (rev xs))"
    by (simp add: sorted_map)
  then show ?thesis
    by (simp add: sortByDateDesc_def sorted_wrt_rev laterFirst_def)
qed

lemma sortByDateDesc_stable:
  "filter (\<lambda>t. ymd (tx_date t) = k) (sortByDateDesc xs) = filter (\<lambda>t. ymd (tx_date t) = k) xs"
  by (simp add: sortByDateDesc_def sort_key_stable flip: rev_filter)

lemma sortByDateDesc_same_date:
  assumes "\<forall>t\<in>set xs. tx_date t = d"
  shows "sortByDateDesc xs = xs"
proof -
  have "map (\<lambda>t. ymd (tx_date t)) (rev xs) = map (\<lambda>t. ymd d) (rev xs)"
    using assms by simp
  then have "sorted (map (\<lambda>t. ymd (tx_date t)) (rev xs))"
    by (simp add: map_replicate_const)
  then show ?thesis
    by (simp add: sortByDateDesc_def sort_key_id_if_sorted)
qed

lemma includes_empty: "string_includes s (toLowerCase [])"
  by (simp add: string_includes_def toLowerCase_def)

lemma searchMatches_empty: "searchMatches [] t"
  by (simp add: searchMatches_def includes_empty)

lemma searchMatches_fun:
  "searchMatches s =
     (\<lambda>t. string_includes (toLowerCase (tx_description t)) (toLowerCase s)
          \<or> string_includes (toLowerCase (tx_category t)) (toLowerCase s))"
  by (simp add: fun_eq_iff searchMatches_def)

lemma search_step:
  "(if s \<noteq> []
    then filter (\<lambda>t. string_includes (toLowerCase (tx_description t)) (toLowerCase s)
                    \<or> string_includes (toLowerCase (tx_category t)) (toLowerCase s)) ys
    else ys) = filter (searchMatches s) ys"
proof (cases "s = []")
  case True
  then show ?thesis by (simp add: searchMatches_empty)
next
  case False
  then show ?thesis by (simp add: searchMatches_fun)
qed

lemma typeMatches_fun: "ty \<noteq> ''all'' \<Longrightarrow> typeMatches ty = (\<lambda>t. tx_type t = ty)"
  by (simp add: fun_eq_iff typeMatches_def)

lemma type_step:
  "(if ty \<noteq> ''all'' then filter (\<lambda>t. tx_type t = ty) ys else ys) = filter (typeMatches ty) ys"
proof (cases "ty = ''all''")
  case True
  then show ?thesis by (simp add: typeMatches_def)
next
  case False
  then show ?thesis by (simp add: typeMatches_fun)
qed

lemma categoryMatches_fun:
  "c \<noteq> ''all'' \<Longrightarrow> categoryMatches c = (\<lambda>t. tx_category t = c)"
  by (simp add: fun_eq_iff categoryMatches_def)

lemma category_step:
  "(if c \<noteq> ''all'' then filter (\<lambda>t. tx_category t = c) ys else ys)
     = filter (categoryMatches c) ys"
proof (cases "c = ''all''")
  case True
  then show ?thesis by (simp add: categoryMatches_def)
next
  case False
  then show ?thesis by (simp add: categoryMatches_fun)
qed

lemma dateRangeMatches_fun:
  "dateRangeMatches now dr =
     (\<lambda>t. if dr = ''today'' then format (parseISO (tx_date t)) = format now
          else if dr = ''week''
            then isWithinInterval (parseISO (tx_date t)) (startOfWeek now, endOfWeek now)
          else if dr = ''month''
            then isWithinInterval (parseISO (tx_date t)) (startOfMonth now, endOfMonth now)
          else if dr = ''year''
            then isWithinInterval (parseISO (tx_date t)) (startOfYear now, endOfYear now)
          else True)"
  by (simp add: fun_eq_iff dateRangeMatches_def format_def parseISO_def)

lemma dateRange_step:
  "(if dr \<noteq> ''all'' then
      (if dr = ''today'' then
         filter (\<lambda>t. format (parseISO (tx_date t)) = format now) ys
       else if dr = ''week'' then
         filter (\<lambda>t. isWithinInterval (parseISO (tx_date t))
                         (startOfWeek now, endOfWeek now)) ys
       else if dr = ''month'' then
         filter (\<lambda>t. isWithinInterval (parseISO (tx_date t))
                         (startOfMonth now, endOfMonth now)) ys
       else if dr = ''year'' then
         filter (\<lambda>t. isWithinInterval (parseISO (tx_date t))
                         (startOfYear now, endOfYear now)) ys
       else ys)
    else ys) = filter (dateRangeMatches now dr) ys"
  by (simp add: dateRangeMatches_fun)

lemma matchesAll_fun:
  "matchesAll now s ty c dr =
     (\<lambda>t. ((searchMatches s t \<and> typeMatches ty t) \<and> categoryMatches c t)
          \<and> dateRangeMatches now dr t)"
  by (simp add: fun_eq_iff matchesAll_def)

lemma filtered_eq:
  "filteredTransactions now txs s ty c dr = sortByDateDesc (filter (matchesAll now s ty c dr) txs)"
proof -
  have "filter (dateRangeMatches now dr)
        (filter (categoryMatches c) (filter (typeMatches ty) (filter (searchMatches s) txs)))
      = filter (matchesAll now s ty c dr) txs"
    by (simp add: matchesAll_fun conj_commute)
  then show ?thesis
    unfolding filteredTransactions_def Let_def search_step type_step category_step dateRange_step
    by simp
qed

text \<open>
  C7. For every entry collection and all criteria, the filter returns exactly the entries
  that satisfy all four predicates (each entry as often as it occurs), and its result is
  sorted by date, later dates first: it is the stable sort of the matching entries.
\<close>

theorem filter_is_conjunction_sorted:
  "filteredTransactions now txs s ty c dr = sortByDateDesc (filter (matchesAll now s ty c dr) txs)
   \<and> mset (filteredTransactions now txs s ty c dr) = mset (filter (matchesAll now s ty c dr) txs)
   \<and> sorted_wrt laterFirst (filteredTransactions now txs s ty c dr)"
  by (simp add: filtered_eq sortByDateDesc_mset sortByDateDesc_sorted)

lemma matchesAll_today:
  "matchesAll now [] ''all'' ''all'' ''today'' = (\<lambda>t. tx_date t = format now)"
  by (simp add: matchesAll_def searchMatches_empty typeMatches_def categoryMatches_def
        dateRangeMatches_def fun_eq_iff)

lemma today_filter: "filteredTransactions now txs [] ''all'' ''all'' ''today'' = filter (\<lambda>t. tx_date t = format now) txs"
  by (simp add: filtered_eq matchesAll_today sortByDateDesc_same_date[of _ "format now"])

text \<open>
  C6. With the date range \<open>today\<close> and no other criterion, the filter returns exactly
  the entries dated on the day of the evaluation, in their order; of two entries dated
  2024-01-15 and 2024-01-16, evaluated on 2024-01-15, it returns the first only.
\<close>

theorem today_filter_exact:
  "filteredTransactions now txs [] ''all'' ''all'' ''today''
     = filter (\<lambda>t. tx_date t = format now) txs
   \<and> tx_date lunch = mkDate 2024 1 15 \<and> tx_date cinema = mkDate 2024 1 16
   \<and> filteredTransactions (mkDate 2024 1 15, nine) [lunch, cinema] [] ''all'' ''all'' ''today''
       = [lunch]"
  by (simp add: today_filter lunch_def cinema_def format_def mkDate_def)

section \<open>Upcoming templates\<close>

lemma upcoming_eq:
  "upcomingTransactions ts
     = take 5 (sort_key dueKey (filter (\<lambda>t. isActive t \<and> nextDue t \<noteq> None) ts))"
  by (simp add: upcomingTransactions_def activeRecurring_def)

lemma sorted_take_drop:
  assumes "sorted (map f xs)" and "u \<in> set (take n xs)" and "t \<in> set (drop n xs)"
  shows "f u \<le> f t"
proof -
  have "sorted (map f (take n xs) @ map f (drop n xs))"
    using assms(1) by (simp flip: map_append)
  then show ?thesis
    using assms(2,3) by (auto simp: sorted_append)
qed

text \<open>
  C8, amended: the component takes no limit. It returns the first five, by \<open>nextDue\<close>
  ascending, of the active templates that have a \<open>nextDue\<close>: only such templates, each at
  most as often as it occurs, sorted by \<open>nextDue\<close>, all of them when they are five or
  fewer and five otherwise, none of them due after a template that is left out, and
  those of one due date in the order of the collection.
\<close>

theorem upcoming_first_five_by_due_date:
  "(\<forall>t\<in>set (upcomingTransactions ts). isActive t \<and> nextDue t \<noteq> None)
   \<and> mset (upcomingTransactions ts) \<subseteq># mset (filter (\<lambda>t. isActive t \<and> nextDue t \<noteq> None) ts)
   \<and> sorted (map dueKey (upcomingTransactions ts))
   \<and> length (upcomingTransactions ts)
       = min 5 (length (filter (\<lambda>t. isActive t \<and> nextDue t \<noteq> None) ts))
   \<and> (\<forall>t\<in>#(mset (filter (\<lambda>t. isActive t \<and> nextDue t \<noteq> None) ts)
                - mset (upcomingTransactions ts)).
         \<forall>u\<in>set (upcomingTransactions ts). dueKey u \<le> dueKey t)
   \<and> (\<forall>k. prefix (filter (\<lambda>u. dueKey u = k) (upcomingTransactions ts))
                   (filter (\<lambda>u. dueKey u = k)
                      (filter (\<lambda>t. isActive t \<and> nextDue t \<noteq> None) ts)))"
proof -
  let ?C = "filter (\<lambda>t. isActive t \<and> nextDue t \<noteq> None) ts"
  let ?S = "sort_key dueKey ?C"
  let ?R = "upcomingTransactions ts"
  have R: "?R = take 5 ?S" by (rule upcoming_eq)
  have split: "mset ?C = mset ?R + mset (drop 5 ?S)"
  proof -
    have "mset ?S = mset (take 5 ?S @ drop 5 ?S)" by simp
    then show ?thesis unfolding R by (simp del: append_take_drop_id)
  qed
  have srt: "sorted (map dueKey ?S)" by (rule sorted_sort_key)
  have a: "\<forall>t\<in>set ?R. isActive t \<and> nextDue t \<noteq> None"
  proof
    fix t assume "t \<in> set ?R"
    then have "t \<in> set ?S" unfolding R by (rule in_set_takeD)
    then show "isActive t \<and> nextDue t \<noteq> None" by simp
  qed
  have b: "mset ?R \<subseteq># mset ?C" unfolding split by simp
  have c: "sorted (map dueKey ?R)"
    using srt unfolding R by (simp add: take_map[symmetric] sorted_wrt_take)
  have d: "length ?R = min 5 (length ?C)" unfolding R by (simp add: min.commute)
  have e: "\<forall>t\<in>#(mset ?C - mset ?R). \<forall>u\<in>set ?R. dueKey u \<le> dueKey t"
  proof (intro ballI)
    fix t u assume "t \<in># mset ?C - mset ?R" and u: "u \<in> set ?R"
    then have "t \<in> set (drop 5 ?S)" unfolding split by simp
    with srt u show "dueKey u \<le> dueKey t"
      unfolding R by (rule sorted_take_drop)
  qed
  have f: "\<forall>k. prefix (filter (\<lambda>u. dueKey u = k) ?R) (filter (\<lambda>u. dueKey u = k) ?C)"
  proof
    fix k
    have "prefix (filter (\<lambda>u. dueKey u = k) ?R) (filter (\<lambda>u. dueKey u = k) ?S)"
      unfolding R by (intro filter_mono_prefix take_is_prefix)
    also have "filter (\<lambda>u. dueKey u = k) ?S = filter (\<lambda>u. dueKey u = k) ?C"
      by (rule sort_key_stable)
    finally show "prefix (filter (\<lambda>u. dueKey u = k) ?R) (filter (\<lambda>u. dueKey u = k) ?C)" .
  qed
  from a b c d e f show ?thesis by blast
qed

lemma upcoming_many:
  "upcomingTransactions manyTemplates
     = [dueOn 13 (mkDate 2024 1 5), dueOn 11 (mkDate 2024 2 1), dueOn 15 (mkDate 2024 3 1),
        dueOn 12 (mkDate 2024 4 1), dueOn 10 (mkDate 2024 6 1)]"
  by (simp add: upcomingTransactions_def activeRecurring_def manyTemplates_def dueOn_def
        pausedRent_def rent_def dueKey_def ymd_def mkDate_def)

lemma candidates_many:
  "filter (\<lambda>t. isActive t \<and> nextDue t \<noteq> None) manyTemplates
     = [dueOn 10 (mkDate 2024 6 1), dueOn 11 (mkDate 2024 2 1), dueOn 12 (mkDate 2024 4 1),
        dueOn 13 (mkDate 2024 1 5), dueOn 15 (mkDate 2024 3 1), dueOn 16 (mkDate 2024 7 1)]"
  by (simp add: manyTemplates_def dueOn_def pausedRent_def rent_def)

lemma left_out_many:
  "mset (filter (\<lambda>t. isActive t \<and> nextDue t \<noteq> None) manyTemplates)
     - mset (upcomingTransactions manyTemplates) = {#dueOn 16 (mkDate 2024 7 1)#}"
  unfolding candidates_many upcoming_many by simp

text \<open>
  C8, as stated: \<open>getUpcoming(limit)\<close> returns at most \<open>limit\<close> templates. No limit
  reaches the code, which cuts the list with \<^verbatim>\<open>slice(0, 5)\<close>: of six active templates
  with a due date it returns five, whatever smaller limit is asked for, 3 say.
\<close>

theorem more_than_three_upcoming:
  "map rt_id (upcomingTransactions manyTemplates) = [13, 11, 15, 12, 10]
   \<and> length (upcomingTransactions manyTemplates) = 5
   \<and> \<not> length (upcomingTransactions manyTemplates) \<le> 3"
  by (simp add: upcoming_many dueOn_def)

theorem upcoming_first_five_by_due_date_witness:
  "map rt_id (upcomingTransactions manyTemplates) = [13, 11, 15, 12, 10]
   \<and> length (filter (\<lambda>t. isActive t \<and> nextDue t \<noteq> None) manyTemplates) = 6
   \<and> mset (filter (\<lambda>t. isActive t \<and> nextDue t \<noteq> None) manyTemplates)
        - mset (upcomingTransactions manyTemplates) = {#dueOn 16 (mkDate 2024 7 1)#}
   \<and> list_all (\<lambda>t. isActive t \<and> nextDue t \<noteq> None) (upcomingTransactions manyTemplates)
   \<and> mset (upcomingTransactions manyTemplates)
        \<subseteq># mset (filter (\<lambda>t. isActive t \<and> nextDue t \<noteq> None) manyTemplates)
   \<and> sorted (map dueKey (upcomingTransactions manyTemplates))
   \<and> length (upcomingTransactions manyTemplates) = 5
   \<and> list_all (\<lambda>u. dueKey u \<le> dueKey (dueOn 16 (mkDate 2024 7 1)))
        (upcomingTransactions manyTemplates)"
proof -
  have i: "map rt_id (upcomingTransactions manyTemplates) = [13, 11, 15, 12, 10]"
    by (simp add: upcoming_many dueOn_def)
  have n: "length (filter (\<lambda>t. isActive t \<and> nextDue t \<noteq> None) manyTemplates) = 6"
    unfolding candidates_many by simp
  show ?thesis
    using upcoming_first_five_by_due_date[of manyTemplates] i n left_out_many
    by (simp add: list_all_iff)
qed

section \<open>Totals\<close>

lemma reduce_map:
  "foldl (\<lambda>sum t. sum + tx_amount t) a xs = foldl (+) a (map tx_amount xs)"
  by (induction xs arbitrary: a) simp_all

text \<open>
  C9. For every entry collection, empty or not, the totals computed by
  \<open>filteredTotals\<close> and by \<open>periodTotals\<close> satisfy balance = income - expense, the
  very value of the subtraction, where income is the sum of the amounts of the entries of
  type \<open>income\<close> and expense the sum of the amounts of the entries of type \<open>expense\<close>,
  each added up from 0 in the order of the collection with the addition of the language.
  Nothing is assumed of the addition and the subtraction.
\<close>

theorem balance_is_income_minus_expense:
  "balance (filteredTotals es) = income (filteredTotals es) - expense (filteredTotals es)
   \<and> income (filteredTotals es)
       = foldl (+) 0 (map tx_amount (filter (\<lambda>t. tx_type t = ''income'') es))
   \<and> expense (filteredTotals es)
       = foldl (+) 0 (map tx_amount (filter (\<lambda>t. tx_type t = ''expense'') es))
   \<and> balance (periodTotals hundred es)
       = income (periodTotals hundred es) - expense (periodTotals hundred es)
   \<and> income (periodTotals hundred es)
       = foldl (+) 0 (map tx_amount (filter (\<lambda>t. tx_type t = ''income'') es))
   \<and> expense (periodTotals hundred es)
       = foldl (+) 0 (map tx_amount (filter (\<lambda>t. tx_type t = ''expense'') es))"
  by (simp add: filteredTotals_def periodTotals_def Let_def reduce_map)

lemma totals_example:
  "filteredTotals [lunch, salary, cinema] = \<lparr>income = 2500, expense = 21, balance = 2479\<rparr>"
  by (simp add: filteredTotals_def lunch_def salary_def cinema_def)

section \<open>Pausing and resuming a template\<close>

text \<open>
  C10. Toggling a template twice gives the collection back; toggling once keeps the
  length and every position, changing nothing but the field \<open>isActive\<close> of the templates
  with the given identifier.
\<close>

theorem toggleActive_involution_local:
  "toggleActive ident (toggleActive ident ts) = ts
   \<and> length (toggleActive ident ts) = length ts
   \<and> (\<forall>i<length ts. toggleActive ident ts ! i =
        (if rt_id (ts ! i) = ident then (ts ! i)\<lparr>isActive := \<not> isActive (ts ! i)\<rparr> else ts ! i))"
proof -
  have "toggleActive ident (toggleActive ident ts) = ts"
    by (induction ts) (simp_all add: toggleActive_def)
  then show ?thesis by (simp add: toggleActive_def)
qed

theorem toggleActive_involution_local_witness:
  "rt_id pausedRent = 3
   \<and> toggleActive 3 [rent, pausedRent] = [rent, pausedRent\<lparr>isActive := True\<rparr>]
   \<and> toggleActive 3 (toggleActive 3 [rent, pausedRent]) = [rent, pausedRent]
   \<and> length (toggleActive 3 [rent, pausedRent]) = 2
   \<and> toggleActive 3 [rent, pausedRent] ! 0 = rent
   \<and> toggleActive 3 [rent, pausedRent] ! 1 = pausedRent\<lparr>isActive := \<not> isActive pausedRent\<rparr>"
proof -
  have i: "rt_id pausedRent = 3" "rt_id rent = 1" "\<not> isActive pausedRent"
    by (simp_all add: pausedRent_def rent_def)
  have t: "toggleActive 3 [rent, pausedRent] = [rent, pausedRent\<lparr>isActive := True\<rparr>]"
    by (simp add: toggleActive_def i)
  show ?thesis
    using toggleActive_involution_local[of 3 "[rent, pausedRent]"] i t
    by simp
qed

section \<open>The date helpers and the filter predicates on examples\<close>

text \<open>
  Adding a whole number of months moves the month count by that number, keeps the month
  in 1 to 12 and the time of day, and keeps the day of the month unless the target month
  is shorter.
\<close>

lemma toInteger_of_int: "toInteger (of_int k) = k"
  by (simp add: toInteger_def)

lemma addMonths_calendar:
  assumes "k \<noteq> 0" and "1 \<le> month d" and "month d \<le> 12"
  shows "12 * year (format (addMonths (d, ms) (of_int k))) + month (format (addMonths (d, ms) (of_int k)))
           = 12 * year d + month d + k
       \<and> 1 \<le> month (format (addMonths (d, ms) (of_int k)))
       \<and> month (format (addMonths (d, ms) (of_int k))) \<le> 12
       \<and> day (format (addMonths (d, ms) (of_int k)))
           = min (day d) (getDaysInMonth (year (format (addMonths (d, ms) (of_int k))))
                                          (month (format (addMonths (d, ms) (of_int k)))))
       \<and> snd (addMonths (d, ms) (of_int k)) = ms"
proof -
  define m0 where "m0 = month d - 1 + k"
  have split: "12 * (m0 div 12) + m0 mod 12 = m0" by simp
  have r: "0 \<le> m0 mod 12" "m0 mod 12 < 12" by simp_all
  show ?thesis
    using assms(1) split r
    unfolding addMonths_def toInteger_of_int Let_def format_def m0_def
    by (auto simp: min_def algebra_simps)
qed

lemma addMonths_end_of_january:
  "addMonths (mkDate 2024 1 31, 0) 1 = (mkDate 2024 2 29, 0)"
  by (simp add: addMonths_def toInteger_def mkDate_def getDaysInMonth_def isLeapYear_def Let_def)

lemma addMonths_over_new_year:
  "addMonths (mkDate 2024 11 30, 0) 3 = (mkDate 2025 2 28, 0)"
  by (simp add: addMonths_def toInteger_def mkDate_def getDaysInMonth_def isLeapYear_def Let_def)

lemma addMonths_leap_day:
  "addMonths (mkDate 2024 2 29, 0) 12 = (mkDate 2025 2 28, 0)"
  by (simp add: addMonths_def toInteger_def mkDate_def getDaysInMonth_def isLeapYear_def Let_def)

lemma getDay_examples:
  "getDay (mkDate 2024 1 15) = 1" "getDay (mkDate 2023 1 1) = 0" "getDay (mkDate 2024 3 1) = 5"
  "getDay (mkDate 1970 1 1) = 4"
  by (simp_all add: getDay_def mkDate_def monthTerm_def)

lemma week_example:
  "startOfWeek (mkDate 2024 3 1, nine) = (mkDate 2024 2 25, 0)"
  "endOfWeek (mkDate 2024 3 1, nine) = (mkDate 2024 3 2, 86399999)"
proof -
  have g: "getDay (mkDate 2024 3 1) = 5"
    by (simp add: getDay_def mkDate_def monthTerm_def)
  have p: "(prevDay ^^ 5) (mkDate 2024 3 1) = mkDate 2024 2 25"
    by (simp add: numeral_eq_Suc prevDay_def mkDate_def getDaysInMonth_def isLeapYear_def)
  have n: "(nextDay ^^ (6 - 5)) (mkDate 2024 3 1) = mkDate 2024 3 2"
    by (simp add: nextDay_def mkDate_def getDaysInMonth_def)
  show "startOfWeek (mkDate 2024 3 1, nine) = (mkDate 2024 2 25, 0)"
    by (simp add: startOfWeek_def g p)
  show "endOfWeek (mkDate 2024 3 1, nine) = (mkDate 2024 3 2, 86399999)"
    unfolding endOfWeek_def fst_conv g n ..
qed

text \<open>
  For the date of a day that exists, lying in the month (the year) of the evaluation is
  having its month and year (its year).
\<close>

lemma month_interval:
  assumes "1 \<le> day d" and "day d \<le> getDaysInMonth (year d) (month d)"
  shows "isWithinInterval (parseISO d) (startOfMonth now, endOfMonth now)
           \<longleftrightarrow> year d = year (fst now) \<and> month d = month (fst now)"
  using assms
  by (auto simp: isWithinInterval_def startOfMonth_def endOfMonth_def parseISO_def getTime_def
        ymd_def less_eq_prod_def less_prod_def)

lemma year_interval:
  assumes "1 \<le> month d" and "month d \<le> 12" and "1 \<le> day d" and "day d \<le> 31"
  shows "isWithinInterval (parseISO d) (startOfYear now, endOfYear now)
           \<longleftrightarrow> year d = year (fst now)"
  using assms
  by (auto simp: isWithinInterval_def startOfYear_def endOfYear_def parseISO_def getTime_def
        ymd_def less_eq_prod_def less_prod_def)

text \<open>
  The scenario of the specification: a monthly template starting on 2024-01-01, never
  processed, evaluated on 2024-01-01, emits one transaction dated 2024-01-01 and moves
  to 2024-02-01.
\<close>

lemma scenario_monthly:
  "processRecurringTransactions logCall (mkDate 2024 1 1, nine) (\<lambda>i. 0)
       [rent\<lparr>nextDue := None\<rparr>] []
     = ([rent\<lparr>lastProcessed := Some (mkDate 2024 1 1), nextDue := Some (mkDate 2024 2 1)\<rparr>],
        [newTransaction ''(Auto)'' 0 (mkDate 2024 1 1, nine) (rent\<lparr>nextDue := None\<rparr>)])"
proof -
  have d: "dueOf (rent\<lparr>nextDue := None\<rparr>) = (mkDate 2024 1 1, 0)"
    by (simp add: dueOf_def rent_def parseISO_def)
  have act: "isActive (rent\<lparr>nextDue := None\<rparr>)" by (simp add: rent_def)
  have due: "dueActive (mkDate 2024 1 1, nine) (rent\<lparr>nextDue := None\<rparr>)"
    by (simp add: dueActive_def isDue_def d format_def act)
  have m: "monthsOf (frequency rent) = 1" by (simp add: monthsOf_def rent_def)
  have adv: "advance (mkDate 2024 1 1, nine) (rent\<lparr>nextDue := None\<rparr>)
      = rent\<lparr>lastProcessed := Some (mkDate 2024 1 1), nextDue := Some (mkDate 2024 2 1)\<rparr>"
    using due by (simp add: advance_def d m addMonths_jan1 format_def)
  have "forEachRecurring logCall (mkDate 2024 1 1, nine) (\<lambda>i. 0) 0 [rent\<lparr>nextDue := None\<rparr>] []
      = ([rent\<lparr>lastProcessed := Some (mkDate 2024 1 1), nextDue := Some (mkDate 2024 2 1)\<rparr>],
         True, [newTransaction ''(Auto)'' 0 (mkDate 2024 1 1, nine) (rent\<lparr>nextDue := None\<rparr>)])"
    using due adv by (simp add: forEach_Cons logCall_def del: forEachRecurring.simps(2))
  then show ?thesis
    by (simp add: processRecurringTransactions_def)
qed

lemma toLowerCase_example: "toLowerCase ''Food & Drink'' = ''food & drink''"
  by code_simp

lemma search_example: "searchMatches ''FOO'' lunch" "\<not> searchMatches ''foo'' cinema"
  by code_simp+

end
